theory Spec2Isabelle
  imports Main "HOL-Library.Sublist"
begin

section \<open>The workspace on disk\<close>

text \<open>
  The fix applier and the rollback executor (\<^verbatim>\<open>bug-fixer.ts\<close>) talk to the disk through
  five calls of Node's \<^verbatim>\<open>fs\<close> module: \<^verbatim>\<open>existsSync\<close>, \<^verbatim>\<open>readFileSync\<close>,
  \<^verbatim>\<open>writeFileSync\<close>, \<^verbatim>\<open>unlinkSync\<close> and \<^verbatim>\<open>mkdirSync\<close>. The disk is a map from
  absolute path strings to nodes; a node is a regular file with its text or a directory.
  Two path strings name the same node only when they are equal (no symbolic links).
  An exception is a value \<open>Inl message\<close>; every call returns the disk it leaves behind,
  also when it throws, because a write that happened before a later throw stays on disk.
\<close>

datatype node = File string | Dir

type_synonym fsys = "string \<rightharpoonup> node"

definition existsSync :: "fsys \<Rightarrow> string \<Rightarrow> bool" where
  "existsSync s p = (s p \<noteq> None)"

definition readFileSync :: "fsys \<Rightarrow> string \<Rightarrow> string + string" where
  "readFileSync s p =
     (case s p of
        Some (File c) \<Rightarrow> Inr c
      | Some Dir \<Rightarrow> Inl ''EISDIR: illegal operation on a directory, read''
      | None \<Rightarrow> Inl ''ENOENT: no such file or directory, open'')"

definition writeFileSync :: "string \<Rightarrow> string \<Rightarrow> fsys \<Rightarrow> (string + unit) \<times> fsys" where
  "writeFileSync p c s =
     (case s p of
        Some Dir \<Rightarrow> (Inl ''EISDIR: illegal operation on a directory, open'', s)
      | _ \<Rightarrow> (Inr (), s(p \<mapsto> File c)))"

definition unlinkSync :: "string \<Rightarrow> fsys \<Rightarrow> (string + unit) \<times> fsys" where
  "unlinkSync p s =
     (case s p of
        Some (File c) \<Rightarrow> (Inr (), s(p := None))
      | Some Dir \<Rightarrow> (Inl ''EPERM: operation not permitted, unlink'', s)
      | None \<Rightarrow> (Inl ''ENOENT: no such file or directory, unlink'', s))"

text \<open>
  \<^verbatim>\<open>mkdirSync(dir, { recursive: true })\<close>: an existing directory is left alone, a regular
  file in the way is an error. Only the directory itself is recorded, not its ancestors.
\<close>

definition mkdirSync :: "string \<Rightarrow> fsys \<Rightarrow> (string + unit) \<times> fsys" where
  "mkdirSync d s =
     (case s d of
        Some (File c) \<Rightarrow> (Inl ''EEXIST: file already exists, mkdir'', s)
      | _ \<Rightarrow> (Inr (), s(d \<mapsto> Dir)))"

text \<open>The text of the regular file at a path, if there is one.\<close>

definition fileContent :: "fsys \<Rightarrow> string \<Rightarrow> string option" where
  "fileContent s p = (case s p of Some (File c) \<Rightarrow> Some c | _ \<Rightarrow> None)"

text \<open>
  Node's \<^verbatim>\<open>path\<close> module is a parameter: the five functions the code calls
  (\<^verbatim>\<open>path.join\<close> takes the list of its arguments).
\<close>

record pathlib =
  isAbsolute :: "string \<Rightarrow> bool"
  resolve :: "string \<Rightarrow> string \<Rightarrow> string"
  relative :: "string \<Rightarrow> string \<Rightarrow> string"
  dirname :: "string \<Rightarrow> string"
  join :: "string list \<Rightarrow> string"

text \<open>
  A sample instance for the concrete runs below: POSIX paths in normal form (no \<^verbatim>\<open>.\<close>,
  \<^verbatim>\<open>..\<close> or doubled separators), on which Node's functions do what these do.
\<close>

definition dirnamePosix :: "string \<Rightarrow> string" where
  "dirnamePosix p =
     (let d = rev (drop 1 (dropWhile (\<lambda>c. c \<noteq> CHR ''/'') (rev p)))
      in if d = [] then ''/'' else d)"

fun joinPosix :: "string list \<Rightarrow> string" where
  "joinPosix [] = ''.''"
| "joinPosix [p] = p"
| "joinPosix (p # q # ps) = p @ ''/'' @ joinPosix (q # ps)"

definition posix :: pathlib where
  "posix = \<lparr>
     isAbsolute = (\<lambda>p. take 1 p = ''/''),
     resolve = (\<lambda>root p. if take 1 p = ''/'' then p else root @ ''/'' @ p),
     relative = (\<lambda>root p. if take (length root + 1) p = root @ ''/''
                              then drop (length root + 1) p else p),
     dirname = dirnamePosix,
     join = joinPosix\<rparr>"

section \<open>Data model\<close>

text \<open>
  \<^verbatim>\<open>AgentConfig\<close> (\<^verbatim>\<open>config.ts\<close>), with the fields the pipeline reads. \<^verbatim>\<open>maxRetries\<close> is a
  JavaScript number holding an integer.
\<close>

record AgentConfig =
  workspaceRoot :: string
  maxRetries :: int
  enableVisualAnalysis :: bool
  codebaseContextFile :: string

record FileChange =
  filePath :: string
  relativePath :: string
  originalContent :: string
  modifiedContent :: string
  diff :: string

record FixResult =
  changes :: "FileChange list"
  explanation :: string
  approach :: string

text \<open>
  One entry of \<^verbatim>\<open>FixBackup.files\<close>. The fields are \<^verbatim>\<open>filePath\<close> and
  \<^verbatim>\<open>originalContent\<close> in the source; they carry a prefix here because \<open>FileChange\<close>
  has fields of the same names. \<^verbatim>\<open>FixBackup.timestamp\<close> (\<^verbatim>\<open>Date.now()\<close>) is never
  read and is left out.
\<close>

record BackupFile =
  bFilePath :: string
  bOriginalContent :: string

record FixBackup =
  files :: "BackupFile list"

section \<open>applyFix and rollbackFix\<close>

definition absolutePathOf :: "pathlib \<Rightarrow> AgentConfig \<Rightarrow> FileChange \<Rightarrow> string" where
  "absolutePathOf P cfg change =
     (if isAbsolute P (filePath change) then filePath change
      else resolve P (workspaceRoot cfg) (filePath change))"

text \<open>The body of the \<^verbatim>\<open>for\<close> loop of \<^verbatim>\<open>applyFix\<close>, for one change.\<close>

definition applyChange ::
  "pathlib \<Rightarrow> AgentConfig \<Rightarrow> FileChange \<Rightarrow> BackupFile list \<Rightarrow> fsys
   \<Rightarrow> (string + BackupFile list) \<times> fsys" where
  "applyChange P cfg change bk s =
     (let absolutePath = absolutePathOf P cfg change in
      case (if existsSync s absolutePath
            then (case readFileSync s absolutePath of
                    Inl e \<Rightarrow> Inl e
                  | Inr c \<Rightarrow> Inr (bk @ [\<lparr>bFilePath = absolutePath, bOriginalContent = c\<rparr>]))
            else Inr (bk @ [\<lparr>bFilePath = absolutePath, bOriginalContent = ''''\<rparr>])) of
        Inl e \<Rightarrow> (Inl e, s)
      | Inr bk' \<Rightarrow>
          (let dir = dirname P absolutePath in
           case (if \<not> existsSync s dir then mkdirSync dir s else (Inr (), s)) of
             (Inl e, s1) \<Rightarrow> (Inl e, s1)
           | (Inr u, s1) \<Rightarrow>
               (case writeFileSync absolutePath (modifiedContent change) s1 of
                  (Inl e, s2) \<Rightarrow> (Inl e, s2)
                | (Inr v, s2) \<Rightarrow> (Inr bk', s2))))"

fun applyChanges ::
  "pathlib \<Rightarrow> AgentConfig \<Rightarrow> FileChange list \<Rightarrow> BackupFile list \<Rightarrow> fsys
   \<Rightarrow> (string + BackupFile list) \<times> fsys" where
  "applyChanges P cfg [] bk s = (Inr bk, s)"
| "applyChanges P cfg (change # rest) bk s =
     (case applyChange P cfg change bk s of
        (Inl e, s1) \<Rightarrow> (Inl e, s1)
      | (Inr bk', s1) \<Rightarrow> applyChanges P cfg rest bk' s1)"

text \<open>
  \<^verbatim>\<open>applyFix\<close>: the backup starts empty and is returned only when every change went
  through; a throw loses it, and leaves the disk as the completed writes made it.
\<close>

definition applyFix ::
  "pathlib \<Rightarrow> AgentConfig \<Rightarrow> FixResult \<Rightarrow> fsys \<Rightarrow> (string + FixBackup) \<times> fsys" where
  "applyFix P cfg fixResult s =
     (case applyChanges P cfg (changes fixResult) [] s of
        (Inl e, s1) \<Rightarrow> (Inl e, s1)
      | (Inr bk, s1) \<Rightarrow> (Inr \<lparr>files = bk\<rparr>, s1))"

text \<open>The body of the \<^verbatim>\<open>for\<close> loop of \<^verbatim>\<open>rollbackFix\<close>, for one backup entry.\<close>

definition rollbackFile :: "BackupFile \<Rightarrow> fsys \<Rightarrow> (string + unit) \<times> fsys" where
  "rollbackFile file s =
     (if bOriginalContent file = ''''
      then (if existsSync s (bFilePath file) then unlinkSync (bFilePath file) s
            else (Inr (), s))
      else writeFileSync (bFilePath file) (bOriginalContent file) s)"

fun rollbackFiles :: "BackupFile list \<Rightarrow> fsys \<Rightarrow> (string + unit) \<times> fsys" where
  "rollbackFiles [] s = (Inr (), s)"
| "rollbackFiles (file # rest) s =
     (case rollbackFile file s of
        (Inl e, s1) \<Rightarrow> (Inl e, s1)
      | (Inr u, s1) \<Rightarrow> rollbackFiles rest s1)"

definition rollbackFix :: "AgentConfig \<Rightarrow> FixBackup \<Rightarrow> fsys \<Rightarrow> (string + unit) \<times> fsys" where
  "rollbackFix cfg backup s = rollbackFiles (files backup) s"

section \<open>generateSimpleDiff\<close>












section \<open>parseFixResponse\<close>

record RelevantFile =
  rRelativePath :: string
  absolutePath :: string
  content :: string
  reason :: string

text \<open>
  The fix-proposal service's answer after \<^verbatim>\<open>JSON.parse\<close> and the check for a
  \<^verbatim>\<open>changes\<close> array: entries \<^verbatim>\<open>{filePath, modifiedContent}\<close> of strings. An answer that
  does not parse, has no such array or has an entry of another shape makes
  \<^verbatim>\<open>generateFix\<close> throw; the service boundary hands that over as \<open>Inl message\<close>.
\<close>

record ProposedChange =
  pFilePath :: string
  pModifiedContent :: string

record ParsedFix =
  pChanges :: "ProposedChange list"
  pExplanation :: "string option"
  pApproach :: "string option"





section \<open>readCodebaseContext and analyzeRelevantFiles\<close>




text \<open>
  What the context service's answer amounts to. \<open>NoArray\<close>: the text has no
  \<^verbatim>\<open>[...]\<close>; \<open>Unparseable\<close>: \<^verbatim>\<open>JSON.parse\<close> throws; \<open>Parsed\<close>: an array, whose elements
  are \<^verbatim>\<open>{path, reason}\<close> objects or something else (\<open>Malformed\<close>: reading \<^verbatim>\<open>.path\<close> or
  resolving it throws a \<^verbatim>\<open>TypeError\<close>); \<open>ServiceFailed\<close>: the request itself rejects.
\<close>

datatype suggestion = Suggested string string | Malformed

datatype filesResponse =
  ServiceFailed string | NoArray | Unparseable | Parsed "suggestion list"




section \<open>The test runner\<close>

record TestResult =
  passed :: bool
  videos :: "string list"
  screenshots :: "string list"
  traces :: "string list"
  errorMessage :: "string option"
  duration :: nat
  stdout :: string
  stderr :: string

record TestGenerationResult =
  testFilePath :: string
  testCode :: string
  testName :: string

text \<open>\<^verbatim>\<open>VisualReport\<close>; its \<^verbatim>\<open>passed\<close> is \<open>visualPassed\<close> here.\<close>

record VisualReport =
  overallAssessment :: string
  visualPassed :: bool

text \<open>
  Calls that leave the program are recorded, newest first. What such a call gives back
  is decided by the environment from the record so far, so that two calls of the same
  service may answer differently.
\<close>

datatype event =
    FixRequested
  | TestRequested
  | TestRepairRequested
  | ServerSpawned
  | TestExecuted TestResult
  | ScreenshotsAnalyzed

record env =
  askFix :: "event list \<Rightarrow> (FixResult \<times> string) option \<Rightarrow> string + ParsedFix"
  askTest :: "event list \<Rightarrow> string + TestGenerationResult"
  askTestRepair :: "event list \<Rightarrow> string \<Rightarrow> string \<Rightarrow> string + TestGenerationResult"
  spawnServer :: "event list \<Rightarrow> nat option"
  serverAnswers :: "event list \<Rightarrow> bool"
  playwright :: "event list \<Rightarrow> TestResult"
  askVisual :: "event list \<Rightarrow> string list \<Rightarrow> string + VisualReport"
  askFiles :: filesResponse

text \<open>
  The state the pipeline acts on: the source files on disk, the child processes that
  are alive, and the record of calls. Generated tests and test artefacts live in
  directories of their own (\<^verbatim>\<open>tests/generated\<close>, the output directory) and are not part
  of \<open>disk\<close>.
\<close>

record world =
  disk :: fsys
  running :: "nat set"
  history :: "event list"

record ChildProcess =
  pid :: "nat option"

text \<open>
  \<^verbatim>\<open>waitForServer\<close> polls until an answer below 500 arrives or 30000 ms have passed;
  \<open>serverAnswers\<close> says which of the two happens.
\<close>

definition waitForServer :: "env \<Rightarrow> world \<Rightarrow> (string + unit) \<times> world" where
  "waitForServer E w =
     (if serverAnswers E (history w) then (Inr (), w)
      else (Inl ''Dev server did not become ready within 30000ms'', w))"

definition startDevServer :: "env \<Rightarrow> AgentConfig \<Rightarrow> world \<Rightarrow> (string + ChildProcess) \<times> world" where
  "startDevServer E cfg w =
     (let serverProcess = \<lparr>pid = spawnServer E (history w)\<rparr>;
          w1 = w\<lparr>running := (case pid serverProcess of
                                 Some n \<Rightarrow> insert n (running w) | None \<Rightarrow> running w),
                  history := ServerSpawned # history w\<rparr>
      in case waitForServer E w1 of
           (Inl e, w2) \<Rightarrow> (Inl e, w2)
         | (Inr u, w2) \<Rightarrow> (Inr serverProcess, w2))"

text \<open>
  \<^verbatim>\<open>executePlaywright\<close> with the artefact scan and the clock: one execution of the
  browser test, which always yields a \<open>TestResult\<close>.
\<close>

definition executePlaywright :: "env \<Rightarrow> world \<Rightarrow> TestResult \<times> world" where
  "executePlaywright E w =
     (let result = playwright E (history w)
      in (result, w\<lparr>history := TestExecuted result # history w\<rparr>))"

text \<open>\<^verbatim>\<open>killProcessTree\<close>: the kill is taken to succeed.\<close>

definition killProcessTree :: "nat \<Rightarrow> world \<Rightarrow> world" where
  "killProcessTree n w = w\<lparr>running := running w - {n}\<rparr>"

text \<open>
  \<^verbatim>\<open>runTests\<close>. The variable \<^verbatim>\<open>serverProcess\<close> starts undefined and is assigned when
  \<^verbatim>\<open>startDevServer\<close> has returned; the \<^verbatim>\<open>finally\<close> block kills what the variable holds
  (a pid of 0 counts as none).
\<close>

definition runTests :: "env \<Rightarrow> AgentConfig \<Rightarrow> bool \<Rightarrow> world \<Rightarrow> (string + TestResult) \<times> world" where
  "runTests E cfg startServer w =
     (let (outcome, serverProcess, w1) =
            (case (if startServer
                   then (case startDevServer E cfg w of
                           (Inl e, w') \<Rightarrow> (Inl e, w')
                         | (Inr sp, w') \<Rightarrow> (Inr (Some sp), w'))
                   else (Inr None, w)) of
               (Inl e, w') \<Rightarrow> (Inl e, None, w')
             | (Inr sp, w') \<Rightarrow>
                 (let (result, w'') = executePlaywright E w' in (Inr result, sp, w'')))
      in (outcome,
          (case serverProcess of
             Some sp \<Rightarrow>
               (case pid sp of
                  Some n \<Rightarrow> (if n \<noteq> 0 then killProcessTree n w1 else w1)
                | None \<Rightarrow> w1)
           | None \<Rightarrow> w1)))"

section \<open>runVerificationPipeline\<close>


record VerificationResult =
  testGeneration :: TestGenerationResult
  testResult :: TestResult
  visualReport :: "VisualReport option"
  retryCount :: nat
  overallPassed :: bool








section \<open>runFixAndVerifyPipeline\<close>

record FixAndVerifyInput =
  bugDescription :: string
  hintFiles :: "string list option"
  startServer :: bool
  testContext :: "string option"

text \<open>\<^verbatim>\<open>FixAttempt\<close>; its field \<^verbatim>\<open>fix\<close> is \<open>attemptFix\<close> here.\<close>

record FixAttempt =
  attemptNumber :: int
  attemptFix :: FixResult
  verification :: "VerificationResult option"
  error :: "string option"




text \<open>
  How one round of the \<^verbatim>\<open>for\<close> loop ends: with \<^verbatim>\<open>continue\<close> or by falling through to
  the next round (the attempt pushed and the new \<^verbatim>\<open>previousAttempt\<close>), with the
  \<^verbatim>\<open>return\<close> of phase 4, or with an exception nobody catches (\<^verbatim>\<open>rollbackFix\<close> threw).
\<close>

datatype outcome =
    Continue FixAttempt "(FixResult \<times> string) option"
  | Return FixAttempt FixResult VerificationResult
  | Throw string





section \<open>Notions used in the statements\<close>

text \<open>What \<^verbatim>\<open>rollbackFix\<close> puts at the path of a backup entry: nothing for the sentinel.\<close>

definition restored :: "BackupFile \<Rightarrow> node option" where
  "restored file =
     (if bOriginalContent file = '''' then None else Some (File (bOriginalContent file)))"

text \<open>The paths a rollback reaches before it stops at a directory.\<close>

definition touched :: "BackupFile list \<Rightarrow> fsys \<Rightarrow> string set" where
  "touched bs s = bFilePath ` set (takeWhile (\<lambda>f. s (bFilePath f) \<noteq> Some Dir) bs)"

text \<open>The backup entry \<^verbatim>\<open>applyFix\<close> records for a path.\<close>

definition backupOf :: "fsys \<Rightarrow> string \<Rightarrow> BackupFile" where
  "backupOf s p = \<lparr>bFilePath = p,
     bOriginalContent = (case s p of Some (File c) \<Rightarrow> c | _ \<Rightarrow> '''')\<rparr>"

text \<open>At path \<open>q\<close>, disk \<open>s'\<close> is disk \<open>s\<close>, or has a directory where \<open>s\<close> had nothing.\<close>

definition dirsAdded :: "fsys \<Rightarrow> fsys \<Rightarrow> string \<Rightarrow> bool" where
  "dirsAdded s s' q = (s' q = s q \<or> (s q = None \<and> s' q = Some Dir))"

text \<open>
  A fix that the backup can undo on disk \<open>s\<close>: its changes name pairwise different
  files, and none of them is an existing empty file (whose content is the sentinel).
\<close>

definition restorable :: "pathlib \<Rightarrow> AgentConfig \<Rightarrow> fsys \<Rightarrow> FixResult \<Rightarrow> bool" where
  "restorable P cfg s fx =
     (distinct (map (absolutePathOf P cfg) (changes fx)) \<and>
      (\<forall>c \<in> set (changes fx). fileContent s (absolutePathOf P cfg c) \<noteq> Some ''''))"

















section \<open>Sample data for the concrete runs\<close>

definition sampleConfig :: AgentConfig where
  "sampleConfig = \<lparr>workspaceRoot = ''/ws'', maxRetries = 1, enableVisualAnalysis = True,
     codebaseContextFile = ''''\<rparr>"

definition sampleDisk :: fsys where
  "sampleDisk = [''/ws'' \<mapsto> Dir, ''/ws/src'' \<mapsto> Dir, ''/ws/a.ts'' \<mapsto> File ''old'',
     ''/ws/empty.css'' \<mapsto> File '''']"

definition change :: "string \<Rightarrow> string \<Rightarrow> FileChange" where
  "change p m = \<lparr>filePath = p, relativePath = p, originalContent = '''',
     modifiedContent = m, diff = ''''\<rparr>"

definition fixOf :: "FileChange list \<Rightarrow> FixResult" where
  "fixOf cs = \<lparr>changes = cs, explanation = ''explanation'', approach = ''approach''\<rparr>"

definition failedRun :: TestResult where
  "failedRun = \<lparr>passed = False, videos = [], screenshots = [''/ws/test-results/shot.png''],
     traces = [], errorMessage = Some ''element not found'', duration = 1200,
     stdout = '''', stderr = ''1 failed''\<rparr>"


definition sampleTest :: TestGenerationResult where
  "sampleTest = \<lparr>testFilePath = ''/ws/tests/generated/fix-verification-counter.spec.ts'',
     testCode = ''import { test } from @playwright/test'', testName = ''fix-verification-counter''\<rparr>"

text \<open>
  An environment in which the fix service proposes one change to \<^verbatim>\<open>a.ts\<close>, the test
  services answer, the dev server is spawned as process 4242 and answers, every
  execution of the browser test fails, and the visual service reports issues.
\<close>

definition sampleEnv :: env where
  "sampleEnv = \<lparr>
     askFix = (\<lambda>h prev. Inr \<lparr>pChanges = [\<lparr>pFilePath = ''a.ts'', pModifiedContent = ''new''\<rparr>],
                                pExplanation = Some ''reset the counter'',
                                pApproach = Some ''assign zero''\<rparr>),
     askTest = (\<lambda>h. Inr sampleTest),
     askTestRepair = (\<lambda>h code msg. Inr sampleTest),
     spawnServer = (\<lambda>h. Some 4242),
     serverAnswers = (\<lambda>h. True),
     playwright = (\<lambda>h. failedRun),
     askVisual = (\<lambda>h shots. Inr \<lparr>overallAssessment = ''layout broken'', visualPassed = False\<rparr>),
     askFiles = NoArray\<rparr>"

definition sampleWorld :: world where
  "sampleWorld = \<lparr>disk = sampleDisk, running = {}, history = []\<rparr>"







section \<open>Rollback\<close>

lemma rollbackFile_cases:
  "s (bFilePath file) = Some Dir \<Longrightarrow> \<exists>e. rollbackFile file s = (Inl e, s)"
  "s (bFilePath file) \<noteq> Some Dir \<Longrightarrow>
     rollbackFile file s = (Inr (), s(bFilePath file := restored file))"
  by (auto simp: rollbackFile_def existsSync_def unlinkSync_def writeFileSync_def restored_def
      split: option.splits node.splits)

lemma touched_Cons:
  "s (bFilePath f) \<noteq> Some Dir \<Longrightarrow> touched (f # bs) s = insert (bFilePath f) (touched bs s)"
  by (simp add: touched_def)

lemma touched_cong:
  "(\<And>p. (t p = Some Dir) = (s p = Some Dir)) \<Longrightarrow> touched bs t = touched bs s"
  by (simp add: touched_def)

lemma restored_not_Dir: "restored f \<noteq> Some Dir"
  by (simp add: restored_def)

lemma rollbackFiles_agree:
  "(\<And>p. (t p = Some Dir) = (s p = Some Dir)) \<Longrightarrow> (\<And>p. t p \<noteq> s p \<Longrightarrow> p \<in> touched bs s)
   \<Longrightarrow> rollbackFiles bs t = rollbackFiles bs s"
proof (induction bs arbitrary: s t)
  case Nil
  then have "t = s" by (auto simp: touched_def)
  then show ?case by simp
next
  case (Cons f bs)
  show ?case
  proof (cases "s (bFilePath f) = Some Dir")
    case True
    with Cons.prems(2) have "t = s" by (fastforce simp: touched_def)
    then show ?thesis by simp
  next
    case False
    with Cons.prems(1) have tf: "t (bFilePath f) \<noteq> Some Dir" by simp
    define s1 where "s1 = s(bFilePath f := restored f)"
    define t1 where "t1 = t(bFilePath f := restored f)"
    have d: "(t1 p = Some Dir) = (s1 p = Some Dir)" for p
      using Cons.prems(1) by (simp add: s1_def t1_def)
    have sd: "(s1 p = Some Dir) = (s p = Some Dir)" for p
      using False by (simp add: s1_def restored_not_Dir)
    have tch: "p \<in> touched bs s1" if "t1 p \<noteq> s1 p" for p
    proof -
      from that have "p \<noteq> bFilePath f" "t p \<noteq> s p" by (auto simp: s1_def t1_def split: if_splits)
      then have "p \<in> touched bs s" using Cons.prems(2)[of p] touched_Cons[of s f bs] False by simp
      then show ?thesis using touched_cong[of s1 s bs] sd by simp
    qed
    have "rollbackFiles bs t1 = rollbackFiles bs s1" by (rule Cons.IH) (use d tch in auto)
    then show ?thesis
      using False tf by (simp add: rollbackFile_cases(2) s1_def t1_def)
  qed
qed

lemma rollbackFiles_dir: "(snd (rollbackFiles bs s) p = Some Dir) = (s p = Some Dir)"
proof (induction bs arbitrary: s)
  case Nil show ?case by simp
next
  case (Cons f bs)
  show ?case
  proof (cases "s (bFilePath f) = Some Dir")
    case True
    then obtain e where "rollbackFile f s = (Inl e, s)" using rollbackFile_cases(1) by blast
    then show ?thesis by simp
  next
    case False
    define s1 where "s1 = s(bFilePath f := restored f)"
    have "(snd (rollbackFiles bs s1) p = Some Dir) = (s1 p = Some Dir)" by (rule Cons.IH)
    also have "\<dots> = (s p = Some Dir)" using False by (simp add: s1_def restored_not_Dir)
    finally show ?thesis using False by (simp add: rollbackFile_cases(2) s1_def)
  qed
qed

lemma rollbackFiles_touched: "snd (rollbackFiles bs s) p \<noteq> s p \<Longrightarrow> p \<in> touched bs s"
proof (induction bs arbitrary: s)
  case Nil then show ?case by simp
next
  case (Cons f bs)
  show ?case
  proof (cases "s (bFilePath f) = Some Dir")
    case True
    then obtain e where "rollbackFile f s = (Inl e, s)" using rollbackFile_cases(1) by blast
    with Cons.prems show ?thesis by simp
  next
    case False
    define s1 where "s1 = s(bFilePath f := restored f)"
    have sd: "(s1 p = Some Dir) = (s p = Some Dir)" for p
      using False by (simp add: s1_def restored_not_Dir)
    have t1: "touched bs s1 = touched bs s" using touched_cong[of s1 s bs] sd by simp
    from Cons.prems False have r: "snd (rollbackFiles bs s1) p \<noteq> s p"
      by (simp add: rollbackFile_cases(2) s1_def)
    show ?thesis
    proof (cases "p = bFilePath f")
      case True then show ?thesis using touched_Cons[of s f bs] \<open>s (bFilePath f) \<noteq> Some Dir\<close> by simp
    next
      case False
      with r have "snd (rollbackFiles bs s1) p \<noteq> s1 p" by (simp add: s1_def)
      then have "p \<in> touched bs s1" by (rule Cons.IH)
      then show ?thesis using t1 touched_Cons[of s f bs] \<open>s (bFilePath f) \<noteq> Some Dir\<close> by simp
    qed
  qed
qed

section \<open>Apply, then roll back\<close>

lemma applyChange_Inr:
  assumes "applyChange P cfg c bk s = (Inr bk', s')"
  shows "s (absolutePathOf P cfg c) \<noteq> Some Dir"
    and "bk' = bk @ [backupOf s (absolutePathOf P cfg c)]"
    and "s' (absolutePathOf P cfg c) = Some (File (modifiedContent c))"
  using assms
  by (auto simp: applyChange_def Let_def existsSync_def readFileSync_def mkdirSync_def
      writeFileSync_def backupOf_def split: option.splits node.splits if_splits prod.splits sum.splits)

lemma applyChange_frame:
  assumes "applyChange P cfg c bk s = (r, s')" and "q \<noteq> absolutePathOf P cfg c"
  shows "dirsAdded s s' q"
  using assms
  by (auto simp: applyChange_def Let_def existsSync_def readFileSync_def mkdirSync_def dirsAdded_def
      writeFileSync_def split: option.splits node.splits if_splits prod.splits sum.splits)

lemma applyChange_keeps_Dir:
  assumes "applyChange P cfg c bk s = (r, s')" and "s q = Some Dir"
  shows "s' q = Some Dir"
  using assms
  by (auto simp: applyChange_def Let_def existsSync_def readFileSync_def mkdirSync_def
      writeFileSync_def split: option.splits node.splits if_splits prod.splits sum.splits)

lemma applyChanges_Dir_throws:
  "s q = Some Dir \<Longrightarrow> q \<in> absolutePathOf P cfg ` set cs \<Longrightarrow>
     \<exists>e s'. applyChanges P cfg cs bk s = (Inl e, s')"
proof (induction cs arbitrary: bk s)
  case Nil then show ?case by simp
next
  case (Cons c cs)
  obtain r s1 where step: "applyChange P cfg c bk s = (r, s1)" by (cases "applyChange P cfg c bk s")
  show ?case
  proof (cases r)
    case (Inl e) with step show ?thesis by simp
  next
    case (Inr bk')
    with step applyChange_Inr(1)[of P cfg c bk s bk' s1] Cons.prems
    have "q \<in> absolutePathOf P cfg ` set cs" by auto
    moreover have "s1 q = Some Dir" using applyChange_keeps_Dir[OF step Cons.prems(1)] .
    ultimately show ?thesis using Cons.IH[of s1 bk'] step Inr by simp
  qed
qed

lemma applyChanges_frame:
  "applyChanges P cfg cs bk s = (r, s') \<Longrightarrow> q \<notin> absolutePathOf P cfg ` set cs \<Longrightarrow>
     dirsAdded s s' q"
proof (induction cs arbitrary: bk s)
  case Nil then show ?case by (simp add: dirsAdded_def)
next
  case (Cons c cs)
  obtain r1 s1 where step: "applyChange P cfg c bk s = (r1, s1)" by (cases "applyChange P cfg c bk s")
  from Cons.prems(2) have q: "q \<noteq> absolutePathOf P cfg c" "q \<notin> absolutePathOf P cfg ` set cs" by auto
  have f1: "dirsAdded s s1 q" using applyChange_frame[OF step q(1)] .
  show ?case
  proof (cases r1)
    case (Inl e) with step Cons.prems(1) f1 show ?thesis by simp
  next
    case (Inr bk')
    with step Cons.prems(1) have "applyChanges P cfg cs bk' s1 = (r, s')" by simp
    from Cons.IH[OF this q(2)] f1 show ?thesis by (auto simp: dirsAdded_def)
  qed
qed

lemma rollbackFile_backupOf:
  assumes "s p \<noteq> Some Dir" "s p \<noteq> Some (File '''')" "t p = Some (File m)"
  shows "rollbackFile (backupOf s p) t = (Inr (), t(p := s p))"
  using assms
  by (auto simp: rollbackFile_def backupOf_def existsSync_def unlinkSync_def writeFileSync_def
      split: option.splits node.splits)

lemma apply_then_rollback:
  "applyChanges P cfg cs bk s = (Inr B, s') \<Longrightarrow>
   distinct (map (absolutePathOf P cfg) cs) \<Longrightarrow>
   (\<And>c. c \<in> set cs \<Longrightarrow> s (absolutePathOf P cfg c) \<noteq> Some (File '''')) \<Longrightarrow>
   \<exists>B'. B = bk @ B' \<and>
     (\<forall>t. (\<forall>p \<in> absolutePathOf P cfg ` set cs. t p = s' p) \<longrightarrow>
        rollbackFiles B' t = (Inr (), \<lambda>p. if p \<in> absolutePathOf P cfg ` set cs then s p else t p))"
proof (induction cs arbitrary: bk s)
  case Nil
  then show ?case by simp
next
  case (Cons c cs)
  define p1 where "p1 = absolutePathOf P cfg c"
  obtain r1 s1 where step: "applyChange P cfg c bk s = (r1, s1)" by (cases "applyChange P cfg c bk s")
  with Cons.prems(1) obtain bk1 where r1: "r1 = Inr bk1" by (cases r1) auto
  with step Cons.prems(1) have rest: "applyChanges P cfg cs bk1 s1 = (Inr B, s')" by simp
  note st = step[unfolded r1]
  have nd: "s p1 \<noteq> Some Dir" and bk1: "bk1 = bk @ [backupOf s p1]"
    and w: "s1 p1 = Some (File (modifiedContent c))"
    using applyChange_Inr[OF st] by (simp_all add: p1_def)
  from Cons.prems(2) have notin: "p1 \<notin> absolutePathOf P cfg ` set cs"
    and dist: "distinct (map (absolutePathOf P cfg) cs)" by (auto simp: p1_def)
  have same: "s1 q = s q" if "q \<in> absolutePathOf P cfg ` set cs" for q
  proof -
    from that notin have "q \<noteq> absolutePathOf P cfg c" unfolding p1_def by blast
    from applyChange_frame[OF st this] have "dirsAdded s s1 q" .
    moreover have "s1 q \<noteq> Some Dir"
      using applyChanges_Dir_throws[OF _ that, of s1 bk1] rest by auto
    ultimately show ?thesis by (auto simp: dirsAdded_def)
  qed
  have ne: "s1 (absolutePathOf P cfg c') \<noteq> Some (File '''')" if "c' \<in> set cs" for c'
    using same[of "absolutePathOf P cfg c'"] that Cons.prems(3)[of c'] by simp
  from Cons.IH[OF rest dist ne] obtain B' where B': "B = bk1 @ B'"
    and rb: "\<And>t. (\<forall>p \<in> absolutePathOf P cfg ` set cs. t p = s' p) \<Longrightarrow>
        rollbackFiles B' t = (Inr (), \<lambda>p. if p \<in> absolutePathOf P cfg ` set cs then s1 p else t p)"
    by blast
  have s'p1: "s' p1 = Some (File (modifiedContent c))"
    using applyChanges_frame[OF rest notin] w by (auto simp: dirsAdded_def)
  have "rollbackFiles (backupOf s p1 # B') t
        = (Inr (), \<lambda>p. if p \<in> absolutePathOf P cfg ` set (c # cs) then s p else t p)"
    if t: "\<forall>p \<in> absolutePathOf P cfg ` set (c # cs). t p = s' p" for t
  proof -
    have tp1: "t p1 = Some (File (modifiedContent c))" using t s'p1 by (simp add: p1_def)
    have ne1: "s p1 \<noteq> Some (File '''')" using Cons.prems(3)[of c] by (simp add: p1_def)
    have one: "rollbackFile (backupOf s p1) t = (Inr (), t(p1 := s p1))"
      using rollbackFile_backupOf[of s p1 t "modifiedContent c"] nd ne1 tp1 by simp
    define t1 where "t1 = t(p1 := s p1)"
    have "\<forall>p \<in> absolutePathOf P cfg ` set cs. t1 p = s' p"
      using t notin by (auto simp: t1_def)
    from rb[OF this] have "rollbackFiles B' t1
       = (Inr (), \<lambda>p. if p \<in> absolutePathOf P cfg ` set cs then s1 p else t1 p)" .
    also have "(\<lambda>p. if p \<in> absolutePathOf P cfg ` set cs then s1 p else t1 p)
       = (\<lambda>p. if p \<in> absolutePathOf P cfg ` set (c # cs) then s p else t p)"
      using same by (auto simp: t1_def p1_def fun_eq_iff)
    finally have "rollbackFiles B' (t(p1 := s p1))
       = (Inr (), \<lambda>p. if p \<in> absolutePathOf P cfg ` set (c # cs) then s p else t p)"
      unfolding t1_def .
    then show ?thesis by (simp only: rollbackFiles.simps one prod.case sum.case)
  qed
  then show ?case using B' bk1 by auto
qed

lemma dirsAdded_fileContent: "dirsAdded s s' q \<Longrightarrow> fileContent s' q = fileContent s q"
  by (auto simp: dirsAdded_def fileContent_def)

lemma applyFix_rollbackFix:
  assumes ap: "applyFix P cfg fx s = (Inr B, s')"
    and ok: "restorable P cfg s fx"
  shows "\<exists>s''. rollbackFix cfg B s' = (Inr (), s'') \<and> (\<forall>q. dirsAdded s s'' q)"
proof -
  from ap obtain bk where run: "applyChanges P cfg (changes fx) [] s = (Inr bk, s')"
    and B: "B = \<lparr>files = bk\<rparr>"
    by (auto simp: applyFix_def split: prod.splits sum.splits)
  from ok have d: "distinct (map (absolutePathOf P cfg) (changes fx))"
    and ne: "\<And>c. c \<in> set (changes fx) \<Longrightarrow> s (absolutePathOf P cfg c) \<noteq> Some (File '''')"
    by (auto simp: restorable_def fileContent_def)
  from apply_then_rollback[OF run d ne]
  have rb: "rollbackFiles bk s' =
      (Inr (), \<lambda>p. if p \<in> absolutePathOf P cfg ` set (changes fx) then s p else s' p)"
    by auto
  have "dirsAdded s (\<lambda>p. if p \<in> absolutePathOf P cfg ` set (changes fx) then s p else s' p) q" for q
    using applyChanges_frame[OF run, of q] by (auto simp: dirsAdded_def)
  then have "\<forall>q. dirsAdded s
      (\<lambda>p. if p \<in> absolutePathOf P cfg ` set (changes fx) then s p else s' p) q" by blast
  with rb B show ?thesis unfolding rollbackFix_def by auto
qed

section \<open>The shape of a diff\<close>


















section \<open>The relevant files\<close>





section \<open>The test runner and the verification loop\<close>

lemma runTests_timeout:
  assumes "spawnServer E (history w) = Some n"
    and "\<not> serverAnswers E (ServerSpawned # history w)"
  shows "runTests E cfg True w
     = (Inl ''Dev server did not become ready within 30000ms'',
        w\<lparr>running := insert n (running w), history := ServerSpawned # history w\<rparr>)"
  using assms by (simp add: runTests_def startDevServer_def waitForServer_def Let_def)

lemma runTests_kills_ready_server:
  assumes "spawnServer E (history w) = Some n" and "n \<noteq> 0"
    and "serverAnswers E (ServerSpawned # history w)"
  shows "n \<notin> running (snd (runTests E cfg True w))"
  using assms
  by (simp add: runTests_def startDevServer_def waitForServer_def executePlaywright_def
      killProcessTree_def Let_def)













section \<open>The orchestrator\<close>

















section \<open>Concrete runs\<close>





section \<open>Properties of the pipeline\<close>




text \<open>
  C2, as the code has it. When \<^verbatim>\<open>applyFix\<close> returns a backup for a fix whose changes name
  pairwise different files, none of them an existing empty file, \<^verbatim>\<open>rollbackFix\<close> on
  that backup returns and leaves every path with the file content it had before
  \<^verbatim>\<open>applyFix\<close>: a file that existed has its old text again, a file that did not exist
  is gone.
\<close>

theorem applyFix_rollbackFix_restores:
  assumes "applyFix P cfg fx s = (Inr B, s')"
    and "restorable P cfg s fx"
  shows "\<exists>s''. rollbackFix cfg B s' = (Inr (), s'')
           \<and> (\<forall>q. fileContent s'' q = fileContent s q)"
proof -
  from applyFix_rollbackFix[OF assms] obtain s'' where
    "rollbackFix cfg B s' = (Inr (), s'')" and "\<forall>q. dirsAdded s s'' q" by blast
  then show ?thesis using dirsAdded_fileContent by blast
qed

theorem applyFix_rollbackFix_restores_witness:
  "restorable posix sampleConfig sampleDisk
     (fixOf [change ''/ws/a.ts'' ''new'', change ''lib/b.ts'' ''fresh''])
   \<and> fst (applyFix posix sampleConfig
            (fixOf [change ''/ws/a.ts'' ''new'', change ''lib/b.ts'' ''fresh'']) sampleDisk)
     = Inr \<lparr>files = [\<lparr>bFilePath = ''/ws/a.ts'', bOriginalContent = ''old''\<rparr>,
                     \<lparr>bFilePath = ''/ws/lib/b.ts'', bOriginalContent = ''''\<rparr>]\<rparr>
   \<and> (\<exists>s''. rollbackFix sampleConfig
               \<lparr>files = [\<lparr>bFilePath = ''/ws/a.ts'', bOriginalContent = ''old''\<rparr>,
                         \<lparr>bFilePath = ''/ws/lib/b.ts'', bOriginalContent = ''''\<rparr>]\<rparr>
               (snd (applyFix posix sampleConfig
                  (fixOf [change ''/ws/a.ts'' ''new'', change ''lib/b.ts'' ''fresh''])
                  sampleDisk)) = (Inr (), s'')
            \<and> (\<forall>q. fileContent s'' q = fileContent sampleDisk q))"
proof -
  let ?fx = "fixOf [change ''/ws/a.ts'' ''new'', change ''lib/b.ts'' ''fresh'']"
  let ?B = "\<lparr>files = [\<lparr>bFilePath = ''/ws/a.ts'', bOriginalContent = ''old''\<rparr>,
                     \<lparr>bFilePath = ''/ws/lib/b.ts'', bOriginalContent = ''''\<rparr>]\<rparr>"
  have ok: "restorable posix sampleConfig sampleDisk ?fx"
    by (simp add: restorable_def fixOf_def change_def absolutePathOf_def posix_def
        sampleConfig_def sampleDisk_def fileContent_def)
  have run: "fst (applyFix posix sampleConfig ?fx sampleDisk) = Inr ?B"
    by (simp add: applyFix_def applyChange_def fixOf_def change_def absolutePathOf_def
        posix_def sampleConfig_def sampleDisk_def existsSync_def readFileSync_def
        mkdirSync_def writeFileSync_def dirnamePosix_def Let_def)
  then have "applyFix posix sampleConfig ?fx sampleDisk
      = (Inr ?B, snd (applyFix posix sampleConfig ?fx sampleDisk))"
    by (simp add: prod_eq_iff)
  from applyFix_rollbackFix_restores[OF this ok] ok run show ?thesis by blast
qed

theorem applyFix_rollbackFix_counterexample:
  "fileContent sampleDisk ''/ws/empty.css'' = Some ''''
   \<and> fst (applyFix posix sampleConfig (fixOf [change ''/ws/empty.css'' ''body {}'']) sampleDisk)
     = Inr \<lparr>files = [\<lparr>bFilePath = ''/ws/empty.css'', bOriginalContent = ''''\<rparr>]\<rparr>
   \<and> fst (rollbackFix sampleConfig
            \<lparr>files = [\<lparr>bFilePath = ''/ws/empty.css'', bOriginalContent = ''''\<rparr>]\<rparr>
            (snd (applyFix posix sampleConfig (fixOf [change ''/ws/empty.css'' ''body {}''])
                    sampleDisk))) = Inr ()
   \<and> fileContent
       (snd (rollbackFix sampleConfig
               \<lparr>files = [\<lparr>bFilePath = ''/ws/empty.css'', bOriginalContent = ''''\<rparr>]\<rparr>
               (snd (applyFix posix sampleConfig (fixOf [change ''/ws/empty.css'' ''body {}''])
                       sampleDisk)))) ''/ws/empty.css'' = None
   \<and> fileContent sampleDisk ''/ws/a.ts'' = Some ''old''
   \<and> fst (applyFix posix sampleConfig
            (fixOf [change ''/ws/a.ts'' ''first'', change ''/ws/a.ts'' ''second'']) sampleDisk)
     = Inr \<lparr>files = [\<lparr>bFilePath = ''/ws/a.ts'', bOriginalContent = ''old''\<rparr>,
                     \<lparr>bFilePath = ''/ws/a.ts'', bOriginalContent = ''first''\<rparr>]\<rparr>
   \<and> fileContent
       (snd (rollbackFix sampleConfig
               \<lparr>files = [\<lparr>bFilePath = ''/ws/a.ts'', bOriginalContent = ''old''\<rparr>,
                         \<lparr>bFilePath = ''/ws/a.ts'', bOriginalContent = ''first''\<rparr>]\<rparr>
               (snd (applyFix posix sampleConfig
                       (fixOf [change ''/ws/a.ts'' ''first'', change ''/ws/a.ts'' ''second''])
                       sampleDisk)))) ''/ws/a.ts'' = Some ''first''"
  by (simp add: applyFix_def applyChange_def fixOf_def change_def absolutePathOf_def
      posix_def sampleConfig_def sampleDisk_def existsSync_def readFileSync_def
      mkdirSync_def writeFileSync_def dirnamePosix_def Let_def rollbackFix_def
      rollbackFile_def unlinkSync_def fileContent_def)

text \<open>
  C3. The claim is that a dev server that was spawned is always killed before
  \<^verbatim>\<open>runTests\<close> returns or throws. What the code does when the server never answers:
  \<^verbatim>\<open>startDevServer\<close> has spawned the process, \<^verbatim>\<open>waitForServer\<close> throws, the variable
  \<^verbatim>\<open>serverProcess\<close> of \<^verbatim>\<open>runTests\<close> was never assigned, and the \<^verbatim>\<open>finally\<close> block kills
  nothing: \<^verbatim>\<open>runTests\<close> throws and the process is still alive.
\<close>

theorem runTests_timeout_leaves_server:
  assumes "spawnServer E (history w) = Some n"
    and "\<not> serverAnswers E (ServerSpawned # history w)"
  shows "fst (runTests E cfg True w) = Inl ''Dev server did not become ready within 30000ms''
       \<and> n \<in> running (snd (runTests E cfg True w))"
  using runTests_timeout[OF assms, of cfg] by simp

theorem runTests_timeout_leaves_server_witness:
  "spawnServer (sampleEnv\<lparr>serverAnswers := \<lambda>h. False\<rparr>) (history sampleWorld) = Some 4242
   \<and> \<not> serverAnswers (sampleEnv\<lparr>serverAnswers := \<lambda>h. False\<rparr>) (ServerSpawned # history sampleWorld)
   \<and> running sampleWorld = {}
   \<and> fst (runTests (sampleEnv\<lparr>serverAnswers := \<lambda>h. False\<rparr>) sampleConfig True sampleWorld)
       = Inl ''Dev server did not become ready within 30000ms''
   \<and> 4242 \<in> running (snd (runTests (sampleEnv\<lparr>serverAnswers := \<lambda>h. False\<rparr>) sampleConfig True
                              sampleWorld))"
proof -
  have a: "spawnServer (sampleEnv\<lparr>serverAnswers := \<lambda>h. False\<rparr>) (history sampleWorld) = Some 4242"
    by (simp add: sampleEnv_def)
  have b: "\<not> serverAnswers (sampleEnv\<lparr>serverAnswers := \<lambda>h. False\<rparr>)
      (ServerSpawned # history sampleWorld)"
    by simp
  have c: "running sampleWorld = {}" by (simp add: sampleWorld_def)
  from runTests_timeout_leaves_server[OF a b, of sampleConfig] a b c show ?thesis by simp
qed













text \<open>
  C9. For every backup set \<open>B\<close> and every disk, running \<^verbatim>\<open>rollbackFix(B)\<close> a second time
  on the disk the first run left changes nothing: the second run leaves the same disk
  and ends the same way (it returns, or throws at the same entry).
\<close>

theorem rollbackFix_idempotent:
  "rollbackFix cfg B (snd (rollbackFix cfg B s)) = rollbackFix cfg B s"
  unfolding rollbackFix_def
  by (rule rollbackFiles_agree) (use rollbackFiles_dir rollbackFiles_touched in blast)+

theorem rollbackFix_idempotent_witness:
  "rollbackFix sampleConfig
     \<lparr>files = [\<lparr>bFilePath = ''/ws/a.ts'', bOriginalContent = ''older''\<rparr>,
               \<lparr>bFilePath = ''/ws/empty.css'', bOriginalContent = ''''\<rparr>]\<rparr>
     (snd (rollbackFix sampleConfig
             \<lparr>files = [\<lparr>bFilePath = ''/ws/a.ts'', bOriginalContent = ''older''\<rparr>,
                       \<lparr>bFilePath = ''/ws/empty.css'', bOriginalContent = ''''\<rparr>]\<rparr>
             sampleDisk))
   = rollbackFix sampleConfig
       \<lparr>files = [\<lparr>bFilePath = ''/ws/a.ts'', bOriginalContent = ''older''\<rparr>,
                 \<lparr>bFilePath = ''/ws/empty.css'', bOriginalContent = ''''\<rparr>]\<rparr>
       sampleDisk
   \<and> fileContent
       (snd (rollbackFix sampleConfig
               \<lparr>files = [\<lparr>bFilePath = ''/ws/a.ts'', bOriginalContent = ''older''\<rparr>,
                         \<lparr>bFilePath = ''/ws/empty.css'', bOriginalContent = ''''\<rparr>]\<rparr>
               sampleDisk)) ''/ws/a.ts'' = Some ''older''"
  using rollbackFix_idempotent [of sampleConfig
      "\<lparr>files = [\<lparr>bFilePath = ''/ws/a.ts'', bOriginalContent = ''older''\<rparr>,
                 \<lparr>bFilePath = ''/ws/empty.css'', bOriginalContent = ''''\<rparr>]\<rparr>" sampleDisk]
  by (simp add: rollbackFix_def rollbackFile_def writeFileSync_def existsSync_def
      unlinkSync_def sampleDisk_def fileContent_def)



end
